theory Spec2Isabelle
  imports Main "HOL-Library.Sublist" "HOL-Library.Char_ord" "HOL-Library.List_Lexorder"
begin

section \<open>Image promotion (pkg/steps/release/promote.go)\<close>

text \<open>
  A shallow embedding of the promotion step of ci-operator. Go strings are byte
  sequences and are modelled by \<open>string\<close>; a Go map is modelled by its contents, a
  partial function. The nil map and the empty map, which the functions below never
  tell apart (none of them compares a map with nil; they only read, range over and take
  the length of the maps they receive), are both \<open>Map.empty\<close>.

  Go does not specify the order in which \<open>range\<close> visits the keys of a map, and the
  order may change from one loop to the next. Every function that ranges over a map
  therefore takes the order of that loop as an extra argument, a list of keys; the
  orders the runtime may choose are those of \<open>range_order\<close>.
\<close>

definition range_order :: "('k \<rightharpoonup> 'v) \<Rightarrow> 'k list \<Rightarrow> bool" where
  "range_order m ks \<longleftrightarrow> distinct ks \<and> set ks = dom m"

subsection \<open>The functions of package strings that the step calls\<close>

text \<open>\<open>strings.Index(s, substr)\<close>: the index of the first instance of \<open>substr\<close> in
  \<open>s\<close>, \<open>None\<close> for Go's \<open>-1\<close>.\<close>

fun Index :: "string \<Rightarrow> string \<Rightarrow> nat option" where
  "Index [] substr = (if substr = [] then Some 0 else None)"
| "Index (c # cs) substr =
     (if prefix substr (c # cs) then Some 0 else map_option Suc (Index cs substr))"

text \<open>\<open>strings.Contains(s, substr)\<close> is \<open>Index(s, substr) >= 0\<close>.\<close>

definition Contains :: "string \<Rightarrow> string \<Rightarrow> bool" where
  "Contains s substr \<longleftrightarrow> Index s substr \<noteq> None"

text \<open>An instance that \<open>Index\<close> finds lies inside the string; the recursion of
  \<open>Split\<close> below ends for that reason.\<close>

lemma Index_bound: "Index s substr = Some m \<Longrightarrow> m + length substr \<le> length s"
proof (induction s arbitrary: m)
  case Nil
  then show ?case by (simp split: if_splits)
next
  case (Cons c cs)
  show ?case
  proof (cases "prefix substr (c # cs)")
    case True
    with Cons.prems show ?thesis by (auto dest: prefix_length_le)
  next
    case False
    with Cons.prems obtain k where "Index cs substr = Some k" and "m = Suc k"
      by auto
    with Cons.IH show ?thesis by fastforce
  qed
qed

text \<open>\<open>strings.Split(s, sep)\<close> for a separator of one byte, which is how the step
  calls it (\<open>"/"\<close>): cut at every separator, keeping empty pieces.\<close>

function Split :: "string \<Rightarrow> char \<Rightarrow> string list" where
  "Split s sep =
     (case Index s [sep] of
        None \<Rightarrow> [s]
      | Some m \<Rightarrow> take m s # Split (drop (m + 1) s) sep)"
  by pat_completeness auto
termination
  by (relation "measure (\<lambda>(s, sep). length s)") (auto dest: Index_bound)

declare Split.simps [simp del]

text \<open>\<open>strings.Replace(s, old, new, 1)\<close>: the first instance of \<open>old\<close> replaced by
  \<open>new\<close>. An empty \<open>old\<close> matches at the beginning of the string, where
  \<open>Index\<close> finds it too.\<close>

definition Replace1 :: "string \<Rightarrow> string \<Rightarrow> string \<Rightarrow> string" where
  "Replace1 s old new =
     (case Index s old of
        None \<Rightarrow> s
      | Some i \<Rightarrow> take i s @ new @ drop (i + length old) s)"

text \<open>\<open>strings.Join(elems, sep)\<close>.\<close>

fun Join :: "string list \<Rightarrow> string \<Rightarrow> string" where
  "Join [] sep = []"
| "Join [e] sep = e"
| "Join (e # es) sep = e @ sep @ Join es sep"

subsection \<open>Public pull references\<close>

definition getPublicImageReference :: "string \<Rightarrow> string \<Rightarrow> string" where
  "getPublicImageReference dockerImageReference publicDockerImageRepository =
     (if \<not> Contains dockerImageReference '':5000'' then dockerImageReference
      else let splits = Split publicDockerImageRepository CHR ''/'' in
        if length splits < 2 then dockerImageReference
        else let publicHost = hd splits;
                 splits' = Split dockerImageReference CHR ''/'' in
          if length splits' < 2 then dockerImageReference
          else Replace1 dockerImageReference (hd splits') publicHost)"

subsection \<open>Configuration (package api)\<close>

text \<open>
  The declarations of package api are not among the sources; the records below hold
  the fields that promote.go reads. A pointer that may be nil is an \<open>option\<close>.
  The fields of an image stream tag reference and of a status tag are prefixed, since
  a promotion configuration has a \<open>Namespace\<close>, a \<open>Name\<close> and a \<open>Tag\<close> too.
\<close>

record PromotionConfiguration =
  Namespace :: string
  Name :: string
  Tag :: string
  RegistryOverride :: string
  Disabled :: bool
  ExcludedImages :: "string list"
  AdditionalImages :: "string \<rightharpoonup> string"
  DisableBuildCache :: bool

record ProjectDirectoryImageBuildStepConfiguration =
  To :: string
  Optional :: bool

record ImageStreamTagReference =
  ref_Namespace :: string
  ref_Name :: string
  ref_Tag :: string

record 'm ReleaseBuildConfiguration =
  Metadata :: 'm
  Images :: "ProjectDirectoryImageBuildStepConfiguration list"
  BinaryBuildCommands :: string
  PromotionConfiguration :: "PromotionConfiguration option"

text \<open>Modelled from the spec: \<open>ImageStreamTagReference.ISTagName\<close> is declared in
  package api, outside the sources; the spec writes a destination reference as
  \<open><namespace>/<name>:<tag>\<close>.\<close>

definition ISTagName :: "ImageStreamTagReference \<Rightarrow> string" where
  "ISTagName r = ref_Namespace r @ ''/'' @ ref_Name r @ '':'' @ ref_Tag r"

text \<open>
  What promote.go takes from package api without defining it: the domain of the
  registry service (\<open>api.DomainForService(api.ServiceRegistry)\<close>), the name of the
  pipeline image stream, the pipeline tag of the binaries, the name of the push
  secret, the path of the registry credentials inside the pod (the
  \<open>filepath.Join\<close> of two constants) and the function \<open>api.BuildCacheFor\<close>.
  They are parameters of the model.
\<close>

record 'm api =
  ServiceRegistryDomain :: string
  PipelineImageStream :: string
  PipelineImageStreamTagReferenceBinaries :: string
  RegistryPushCredentialsCICentralSecret :: string
  RegistryConfigPath :: string
  BuildCacheFor :: "'m \<Rightarrow> ImageStreamTagReference"

definition targetName :: "PromotionConfiguration \<Rightarrow> string" where
  "targetName config =
     (if length (Name config) > 0
      then Namespace config @ ''/'' @ Name config @ '':${component}''
      else Namespace config @ ''/${component}:'' @ Tag config)"

definition registryDomain :: "'m api \<Rightarrow> PromotionConfiguration \<Rightarrow> string" where
  "registryDomain a configuration =
     (if RegistryOverride configuration \<noteq> [] then RegistryOverride configuration
      else ServiceRegistryDomain a)"

subsection \<open>The tags to promote\<close>

text \<open>The three loops of \<open>toPromote\<close>, each a step function folded over what the
  loop ranges over. The state is the pair (\<open>tagsByDst\<close>, \<open>names\<close>).\<close>

type_synonym promoting = "(string \<rightharpoonup> string) \<times> string set"

definition includeImage ::
  "string set \<Rightarrow> promoting \<Rightarrow> ProjectDirectoryImageBuildStepConfiguration \<Rightarrow> promoting" where
  "includeImage requiredImages st img =
     (let tag = To img in
      if tag \<in> requiredImages \<or> \<not> Optional img
      then ((fst st)(tag \<mapsto> tag), insert tag (snd st))
      else st)"

definition excludeImage :: "promoting \<Rightarrow> string \<Rightarrow> promoting" where
  "excludeImage st tag = ((fst st)(tag := None), snd st - {tag})"

definition addImage :: "(string \<rightharpoonup> string) \<Rightarrow> promoting \<Rightarrow> string \<Rightarrow> promoting" where
  "addImage additional st dst =
     (case additional dst of
        None \<Rightarrow> st
      | Some src \<Rightarrow> ((fst st)(dst \<mapsto> src), insert dst (snd st)))"

text \<open>\<open>additionalOrder\<close> is the order in which the last loop ranges over
  \<open>config.AdditionalImages\<close>.\<close>

definition toPromote ::
  "string list \<Rightarrow> PromotionConfiguration \<Rightarrow> ProjectDirectoryImageBuildStepConfiguration list
     \<Rightarrow> string set \<Rightarrow> promoting" where
  "toPromote additionalOrder config images requiredImages =
     (if Disabled config then (Map.empty, {})
      else
        let st1 = foldl (includeImage requiredImages) (Map.empty, {}) images;
            st2 = foldl excludeImage st1 (ExcludedImages config)
        in foldl (addImage (AdditionalImages config)) st2 additionalOrder)"

text \<open>The destination of the image promoted under \<open>dst\<close>: the two branches of the
  loop of \<open>PromotedTagsWithRequiredImages\<close>.\<close>

definition destination :: "PromotionConfiguration \<Rightarrow> string \<Rightarrow> ImageStreamTagReference" where
  "destination pc dst =
     (if Name pc \<noteq> []
      then \<lparr>ref_Namespace = Namespace pc, ref_Name = Name pc, ref_Tag = dst\<rparr>
      else \<lparr>ref_Namespace = Namespace pc, ref_Name = dst, ref_Tag = Tag pc\<rparr>)"

definition promoteTag ::
  "PromotionConfiguration \<Rightarrow> (string \<rightharpoonup> string)
     \<Rightarrow> (string \<rightharpoonup> ImageStreamTagReference) \<Rightarrow> string \<Rightarrow> (string \<rightharpoonup> ImageStreamTagReference)" where
  "promoteTag pc tags promotedTags dst =
     (case tags dst of
        None \<Rightarrow> promotedTags
      | Some src \<Rightarrow> promotedTags(src \<mapsto> destination pc dst))"

text \<open>\<open>tagsOrder\<close> is the order in which the function ranges over the map \<open>tags\<close>
  that \<open>toPromote\<close> returned.\<close>

definition PromotedTagsWithRequiredImages ::
  "'m api \<Rightarrow> string list \<Rightarrow> string list \<Rightarrow> 'm ReleaseBuildConfiguration option \<Rightarrow> string set
     \<Rightarrow> (string \<rightharpoonup> ImageStreamTagReference) \<times> string set" where
  "PromotedTagsWithRequiredImages a additionalOrder tagsOrder configuration requiredImages =
     (case configuration of
        None \<Rightarrow> (Map.empty, {})
      | Some c \<Rightarrow>
          (case PromotionConfiguration c of
             None \<Rightarrow> (Map.empty, {})
           | Some pc \<Rightarrow>
               if Disabled pc then (Map.empty, {})
               else
                 let (tags, names) = toPromote additionalOrder pc (Images c) requiredImages;
                     promotedTags = foldl (promoteTag pc tags) Map.empty tagsOrder
                 in if BinaryBuildCommands c \<noteq> [] \<and> \<not> DisableBuildCache pc
                    then (promotedTags(PipelineImageStreamTagReferenceBinaries a
                            \<mapsto> BuildCacheFor a (Metadata c)), names)
                    else (promotedTags, names)))"

subsection \<open>The pipeline image stream and the mirror mapping\<close>

text \<open>The part of \<open>imagev1.ImageStream\<close> that the step reads: the public repository
  of the stream and, for each tag of its status, the pull references recorded for it,
  newest first.\<close>

record TagEvent =
  DockerImageReference :: string

record NamedTagEventList =
  tag_Tag :: string
  Items :: "TagEvent list"

record ImageStreamStatus =
  PublicDockerImageRepository :: string
  Tags :: "NamedTagEventList list"

record ImageStream =
  Status :: ImageStreamStatus

text \<open>The loop of \<open>findDockerImageReference\<close> over \<open>is.Status.Tags\<close>: the first
  status tag of that name decides.\<close>

fun findInTags :: "NamedTagEventList list \<Rightarrow> string \<Rightarrow> string" where
  "findInTags [] tag = []"
| "findInTags (t # ts) tag =
     (if tag_Tag t \<noteq> tag then findInTags ts tag
      else if length (Items t) = 0 then []
      else DockerImageReference (hd (Items t)))"

definition findDockerImageReference :: "ImageStream \<Rightarrow> string \<Rightarrow> string" where
  "findDockerImageReference stream tag = findInTags (Tags (Status stream)) tag"

text \<open>One round of the loop of \<open>getImageMirrorTarget\<close>, for the key \<open>src\<close> of
  \<open>tags\<close>.\<close>

definition mirrorTag ::
  "(string \<rightharpoonup> ImageStreamTagReference) \<Rightarrow> ImageStream \<Rightarrow> string
     \<Rightarrow> (string \<rightharpoonup> string) \<Rightarrow> string \<Rightarrow> (string \<rightharpoonup> string)" where
  "mirrorTag tags pipeline registry imageMirror src =
     (case tags src of
        None \<Rightarrow> imageMirror
      | Some dst \<Rightarrow>
          let dockerImageReference = findDockerImageReference pipeline src in
          if dockerImageReference = [] then imageMirror
          else imageMirror
            (getPublicImageReference dockerImageReference
               (PublicDockerImageRepository (Status pipeline))
             \<mapsto> registry @ ''/'' @ ISTagName dst))"

text \<open>\<open>promotedOrder\<close> is the order in which the loop ranges over \<open>tags\<close>. The
  function has no error result. Where the Go returns nil for an empty mapping the
  model returns the empty map.\<close>

definition getImageMirrorTarget ::
  "string list \<Rightarrow> (string \<rightharpoonup> ImageStreamTagReference) \<Rightarrow> ImageStream option \<Rightarrow> string
     \<Rightarrow> (string \<rightharpoonup> string)" where
  "getImageMirrorTarget promotedOrder tags pipeline registry =
     (case pipeline of
        None \<Rightarrow> Map.empty
      | Some p \<Rightarrow> foldl (mirrorTag tags p registry) Map.empty promotedOrder)"

subsection \<open>The promotion pod\<close>

datatype RestartPolicy = RestartPolicyAlways | RestartPolicyOnFailure | RestartPolicyNever

record VolumeMount =
  mount_Name :: string
  MountPath :: string
  ReadOnly :: bool

record Container =
  container_Name :: string
  container_Image :: string
  Command :: "string list"
  Args :: "string list"
  VolumeMounts :: "VolumeMount list"

record Volume =
  volume_Name :: string
  SecretName :: string

record Pod =
  pod_Name :: string
  pod_Namespace :: string
  pod_RestartPolicy :: RestartPolicy
  Containers :: "Container list"
  Volumes :: "Volume list"

text \<open>Reading a Go map of strings at a key: the zero value where the key is absent.\<close>

definition at :: "(string \<rightharpoonup> string) \<Rightarrow> string \<Rightarrow> string" where
  "at m k = (case m k of None \<Rightarrow> [] | Some v \<Rightarrow> v)"

text \<open>The \<open>images\<close> of \<open>getPromotionPod\<close>: \<open>keys\<close> holds the keys of the mapping in
  the order the first loop met them, \<open>sort\<close> is \<open>sort.Strings\<close> (Go compares
  strings byte by byte, as the order on \<open>string\<close> does).\<close>

definition mirrorArguments :: "string list \<Rightarrow> (string \<rightharpoonup> string) \<Rightarrow> string list" where
  "mirrorArguments keys imageMirrorTarget =
     map (\<lambda>k. k @ ''='' @ at imageMirrorTarget k) (sort keys)"

text \<open>\<open>mirrorOrder\<close> is the order in which the first loop ranges over
  \<open>imageMirrorTarget\<close>.\<close>

definition getPromotionPod :: "'m api \<Rightarrow> string list \<Rightarrow> (string \<rightharpoonup> string) \<Rightarrow> string \<Rightarrow> Pod" where
  "getPromotionPod a mirrorOrder imageMirrorTarget namespace =
     (let images = mirrorArguments mirrorOrder imageMirrorTarget;
          command = [''/bin/sh'', ''-c''];
          args = [''oc image mirror --registry-config='' @ RegistryConfigPath a
                  @ '' --continue-on-error=true --max-per-registry=20 '' @ Join images '' '']
      in \<lparr>pod_Name = ''promotion'',
          pod_Namespace = namespace,
          pod_RestartPolicy = RestartPolicyNever,
          Containers =
            [\<lparr>container_Name = ''promotion'',
              container_Image = ServiceRegistryDomain a @ ''/ocp/4.8:cli'',
              Command = command,
              Args = args,
              VolumeMounts =
                [\<lparr>mount_Name = ''push-secret'', MountPath = ''/etc/push-secret'',
                  ReadOnly = True\<rparr>]\<rparr>],
          Volumes =
            [\<lparr>volume_Name = ''push-secret'',
              SecretName = RegistryPushCredentialsCICentralSecret a\<rparr>]\<rparr>)"

subsection \<open>Running the step\<close>

text \<open>
  The client is what the step calls on the cluster: \<open>Get\<close>, which answers with an
  error or the image stream, and \<open>steps.RunPod\<close>, which answers with an error or
  none. \<open>run\<close> returns its error (\<open>None\<close> for nil) and the calls it made on the
  client, in order. Logging is left out. The orders of the four loops over maps on
  the way are gathered in one record.
\<close>

datatype error =
  CouldNotResolvePipeline string
| UnableToRunPromotionPod string
| NilPointerDereference

datatype call = CallGet string string | CallRunPod Pod

record PodClient =
  client_Get :: "string \<Rightarrow> string \<Rightarrow> string + ImageStream"
  client_RunPod :: "Pod \<Rightarrow> string option"

record 'm promotionStep =
  step_configuration :: "'m ReleaseBuildConfiguration option"
  step_requiredImages :: "string set"
  step_Namespace :: string

record range_orders =
  order_additional :: "string list"
  order_tags :: "string list"
  order_promoted :: "string list"
  order_mirror :: "string list"

definition run ::
  "'m api \<Rightarrow> range_orders \<Rightarrow> PodClient \<Rightarrow> 'm promotionStep \<Rightarrow> error option \<times> call list" where
  "run a ro client s =
     (let (tags, names) =
            PromotedTagsWithRequiredImages a (order_additional ro) (order_tags ro)
              (step_configuration s) (step_requiredImages s)
      in if names = {} then (None, [])
         else
           (case Option.bind (step_configuration s) PromotionConfiguration of
              None \<Rightarrow> (Some NilPointerDereference, [])
            | Some pc \<Rightarrow>
                let get = CallGet (step_Namespace s) (PipelineImageStream a) in
                (case client_Get client (step_Namespace s) (PipelineImageStream a) of
                   Inl err \<Rightarrow> (Some (CouldNotResolvePipeline err), [get])
                 | Inr pipeline \<Rightarrow>
                     let imageMirrorTarget =
                           getImageMirrorTarget (order_promoted ro) tags (Some pipeline)
                             (registryDomain a pc)
                     in if imageMirrorTarget = Map.empty then (None, [get])
                        else
                          let pod = getPromotionPod a (order_mirror ro) imageMirrorTarget
                                      (step_Namespace s)
                          in (case client_RunPod client pod of
                                Some err \<Rightarrow> (Some (UnableToRunPromotionPod err), [get, CallRunPod pod])
                              | None \<Rightarrow> (None, [get, CallRunPod pod])))))"

subsection \<open>Example inputs\<close>

text \<open>
  The scenario of the spec: image \<open>a\<close> is required, image \<open>b\<close> is optional,
  \<open>a\<close> is excluded and \<open>b\<close> is promoted under the additional name \<open>c\<close>. The
  values standing for package api are those of the repository as far as they are
  known; the metadata of the examples is \<open>()\<close>.
\<close>

definition scenario_config :: PromotionConfiguration where
  "scenario_config =
     \<lparr>Namespace = ''ocp'', Name = [], Tag = ''latest'', RegistryOverride = [],
      Disabled = False, ExcludedImages = [''a''], AdditionalImages = [''c'' \<mapsto> ''b''],
      DisableBuildCache = False\<rparr>"

definition scenario_images :: "ProjectDirectoryImageBuildStepConfiguration list" where
  "scenario_images = [\<lparr>To = ''a'', Optional = False\<rparr>, \<lparr>To = ''b'', Optional = True\<rparr>]"

definition scenario_api :: "unit api" where
  "scenario_api =
     \<lparr>ServiceRegistryDomain = ''registry.ci.openshift.org'',
      PipelineImageStream = ''pipeline'',
      PipelineImageStreamTagReferenceBinaries = ''bin'',
      RegistryPushCredentialsCICentralSecret = ''registry-push-credentials-ci-central'',
      RegistryConfigPath = ''/etc/push-secret/.dockerconfigjson'',
      BuildCacheFor =
        (\<lambda>_. \<lparr>ref_Namespace = ''build-cache'', ref_Name = ''org-repo'', ref_Tag = ''main''\<rparr>)\<rparr>"

definition scenario_release :: "unit ReleaseBuildConfiguration" where
  "scenario_release =
     \<lparr>Metadata = (), Images = scenario_images, BinaryBuildCommands = ''make build'',
      PromotionConfiguration = Some scenario_config\<rparr>"

text \<open>The same promotion with \<open>c\<close> built, promoted and excluded as well.\<close>

definition override_config :: PromotionConfiguration where
  "override_config = scenario_config\<lparr>ExcludedImages := [''c'']\<rparr>"

definition override_images :: "ProjectDirectoryImageBuildStepConfiguration list" where
  "override_images = [\<lparr>To = ''c'', Optional = False\<rparr>, \<lparr>To = ''b'', Optional = True\<rparr>]"

text \<open>Image \<open>b\<close> is promoted under its own name and under the additional name
  \<open>c\<close>: two destinations with one source.\<close>

definition collision_config :: PromotionConfiguration where
  "collision_config =
     \<lparr>Namespace = ''ocp'', Name = [], Tag = ''latest'', RegistryOverride = [],
      Disabled = False, ExcludedImages = [], AdditionalImages = [''c'' \<mapsto> ''b''],
      DisableBuildCache = False\<rparr>"

definition collision_release :: "unit ReleaseBuildConfiguration" where
  "collision_release =
     \<lparr>Metadata = (), Images = [\<lparr>To = ''b'', Optional = False\<rparr>], BinaryBuildCommands = [],
      PromotionConfiguration = Some collision_config\<rparr>"

text \<open>A repository that builds binaries and promotes no image.\<close>

definition binaries_release :: "unit ReleaseBuildConfiguration" where
  "binaries_release =
     \<lparr>Metadata = (), Images = [], BinaryBuildCommands = ''make build'',
      PromotionConfiguration = Some (collision_config\<lparr>AdditionalImages := Map.empty\<rparr>)\<rparr>"

text \<open>A pipeline image stream whose status records a pull reference for \<open>b\<close>, none
  for \<open>src\<close> and has no tag \<open>bin\<close>; a client that answers with it and runs every
  pod; the promoted tags of a run against it.\<close>

definition scenario_pipeline :: ImageStream where
  "scenario_pipeline =
     \<lparr>Status =
        \<lparr>PublicDockerImageRepository = ''registry.build01.example.com/ci-op-1/pipeline'',
         Tags =
           [\<lparr>tag_Tag = ''src'', Items = []\<rparr>,
            \<lparr>tag_Tag = ''b'', Items = [\<lparr>DockerImageReference =
               ''image-registry.svc:5000/ci-op-1/pipeline@sha256:0b''\<rparr>]\<rparr>]\<rparr>\<rparr>"

definition scenario_client :: PodClient where
  "scenario_client =
     \<lparr>client_Get = (\<lambda>namespace name. Inr scenario_pipeline), client_RunPod = (\<lambda>pod. None)\<rparr>"

definition scenario_orders :: range_orders where
  "scenario_orders =
     \<lparr>order_additional = [''c''], order_tags = [''c''], order_promoted = [''b'', ''bin''],
      order_mirror = [''registry.build01.example.com/ci-op-1/pipeline@sha256:0b'']\<rparr>"

definition scenario_step :: "unit ReleaseBuildConfiguration option \<Rightarrow> unit promotionStep" where
  "scenario_step c =
     \<lparr>step_configuration = c, step_requiredImages = {''a''}, step_Namespace = ''ci-op-1''\<rparr>"

definition scenario_tags :: "string \<rightharpoonup> ImageStreamTagReference" where
  "scenario_tags =
     [''b'' \<mapsto> \<lparr>ref_Namespace = ''ocp'', ref_Name = ''c'', ref_Tag = ''latest''\<rparr>,
      ''bin'' \<mapsto> \<lparr>ref_Namespace = ''build-cache'', ref_Name = ''org-repo'', ref_Tag = ''main''\<rparr>,
      ''src'' \<mapsto> \<lparr>ref_Namespace = ''ocp'', ref_Name = ''src'', ref_Tag = ''latest''\<rparr>]"

text \<open>A mirror mapping of two images.\<close>

definition scenario_mapping :: "string \<rightharpoonup> string" where
  "scenario_mapping =
     [''quay.io/ci/b@sha256:0b'' \<mapsto> ''registry.ci.openshift.org/ocp/b:latest'',
      ''quay.io/ci/a@sha256:0a'' \<mapsto> ''registry.ci.openshift.org/ocp/a:latest'']"

section \<open>Properties\<close>

subsection \<open>Splitting and replacing\<close>

lemma Index_char:
  "Index s [c] = (if c \<in> set s then Some (length (takeWhile (\<lambda>x. x \<noteq> c) s)) else None)"
  by (induction s) auto

lemma Split_nonempty: "Split s c \<noteq> []"
  by (subst Split.simps) (simp split: option.splits)

lemma Split_no_sep: "c \<notin> set s \<Longrightarrow> Split s c = [s]"
  by (subst Split.simps) (simp add: Index_char)

lemma takeWhile_upto_sep:
  "c \<notin> set h \<Longrightarrow> takeWhile (\<lambda>x. x \<noteq> c) (h @ c # r) = h"
  by (induction h) auto

lemma Split_at_first:
  assumes "c \<notin> set h"
  shows "Split (h @ c # r) c = h # Split r c"
proof -
  have "Index (h @ c # r) [c] = Some (length h)"
    using assms by (simp add: Index_char takeWhile_upto_sep)
  then show ?thesis
    by (subst Split.simps) simp
qed

lemma Split_head:
  assumes "c \<notin> set h"
  shows "hd (Split (h @ c # r) c) = h" and "\<not> length (Split (h @ c # r) c) < 2"
proof -
  obtain p ps where "Split r c = p # ps"
    using Split_nonempty [of r c] by (cases "Split r c") auto
  then show "hd (Split (h @ c # r) c) = h" and "\<not> length (Split (h @ c # r) c) < 2"
    using assms by (simp_all add: Split_at_first)
qed

lemma Index_prefix: "prefix sub s \<Longrightarrow> Index s sub = Some 0"
  by (cases s) auto

lemma Replace1_prefix: "Replace1 (h @ r) h new = new @ r"
  by (simp add: Replace1_def Index_prefix)

subsection \<open>The public pull reference\<close>

text \<open>
  C6. \<open>getPublicImageReference\<close> takes a pull reference for internal when
  \<open>:5000\<close> occurs in it. For such a reference \<open>host/path\<close> and a public repository
  \<open>publicHost/rest\<close> of the stream, the result is \<open>publicHost/path\<close>: the host is
  replaced, and the path with its tag or digest is kept. When the public repository
  has no \<open>/\<close>, so that no public host can be read from it, the reference is
  returned as it is. The function has no error result.
\<close>

theorem getPublicImageReference_rewrites_host:
  "(Contains ref '':5000'' \<and> ref = host @ ''/'' @ path \<and> CHR ''/'' \<notin> set host \<and>
      pub = publicHost @ ''/'' @ rest \<and> CHR ''/'' \<notin> set publicHost
      \<longrightarrow> getPublicImageReference ref pub = publicHost @ ''/'' @ path) \<and>
   (CHR ''/'' \<notin> set pub \<longrightarrow> getPublicImageReference ref pub = ref)"
proof (intro conjI impI)
  assume a: "Contains ref '':5000'' \<and> ref = host @ ''/'' @ path \<and> CHR ''/'' \<notin> set host \<and>
      pub = publicHost @ ''/'' @ rest \<and> CHR ''/'' \<notin> set publicHost"
  then have ref: "ref = host @ CHR ''/'' # path" and pub: "pub = publicHost @ CHR ''/'' # rest"
    by simp_all
  from a have h: "CHR ''/'' \<notin> set host" and p: "CHR ''/'' \<notin> set publicHost"
    by simp_all
  have "getPublicImageReference ref pub = Replace1 ref host publicHost"
    using a Split_head [OF h, of path] Split_head [OF p, of rest]
    unfolding getPublicImageReference_def ref pub by (simp add: Let_def)
  also have "\<dots> = publicHost @ ''/'' @ path"
    unfolding ref by (simp add: Replace1_prefix)
  finally show "getPublicImageReference ref pub = publicHost @ ''/'' @ path" .
next
  assume "CHR ''/'' \<notin> set pub"
  then show "getPublicImageReference ref pub = ref"
    by (simp add: getPublicImageReference_def Split_no_sep)
qed

theorem getPublicImageReference_rewrites_host_witness:
  "getPublicImageReference ''foo:5000/ns/img@sha256:0a1b'' ''bar.example.com/ci-op-1/pipeline''
     = ''bar.example.com/ns/img@sha256:0a1b'' \<and>
   getPublicImageReference ''foo:5000/ns/img@sha256:0a1b'' [] = ''foo:5000/ns/img@sha256:0a1b''"
proof -
  have c: "Contains ''foo:5000/ns/img@sha256:0a1b'' '':5000''"
    by (simp add: Contains_def)
  have "getPublicImageReference ''foo:5000/ns/img@sha256:0a1b'' ''bar.example.com/ci-op-1/pipeline''
     = ''bar.example.com'' @ ''/'' @ ''ns/img@sha256:0a1b''"
    using c getPublicImageReference_rewrites_host
      [of "''foo:5000/ns/img@sha256:0a1b''" "''foo:5000''" "''ns/img@sha256:0a1b''"
          "''bar.example.com/ci-op-1/pipeline''" "''bar.example.com''" "''ci-op-1/pipeline''"]
    by simp
  moreover have "getPublicImageReference ''foo:5000/ns/img@sha256:0a1b'' [] = ''foo:5000/ns/img@sha256:0a1b''"
    using getPublicImageReference_rewrites_host
      [of "''foo:5000/ns/img@sha256:0a1b''" "''foo:5000''" "''ns/img@sha256:0a1b''" "[]"]
    by simp
  ultimately show ?thesis by simp
qed

subsection \<open>The tags that \<open>toPromote\<close> returns\<close>

text \<open>What each loop leaves in \<open>tagsByDst\<close> and in \<open>names\<close>.\<close>

lemma foldl_includeImage_lookup:
  "fst (foldl (includeImage req) st images) t =
     (if \<exists>img \<in> set images. To img = t \<and> (t \<in> req \<or> \<not> Optional img) then Some t
      else fst st t)"
  by (induction images arbitrary: st) (auto simp: includeImage_def Let_def)

lemma foldl_includeImage_names:
  "snd (foldl (includeImage req) st images) =
     snd st \<union> {To img | img. img \<in> set images \<and> (To img \<in> req \<or> \<not> Optional img)}"
  by (induction images arbitrary: st) (auto simp: includeImage_def Let_def)

lemma foldl_excludeImage_lookup:
  "fst (foldl excludeImage st ex) t = (if t \<in> set ex then None else fst st t)"
  by (induction ex arbitrary: st) (auto simp: excludeImage_def)

lemma foldl_excludeImage_names:
  "snd (foldl excludeImage st ex) = snd st - set ex"
  by (induction ex arbitrary: st) (auto simp: excludeImage_def)

lemma foldl_addImage_lookup:
  "fst (foldl (addImage add) st order) t =
     (if t \<in> set order \<and> add t \<noteq> None then add t else fst st t)"
  by (induction order arbitrary: st) (auto simp: addImage_def split: option.splits)

lemma foldl_addImage_names:
  "snd (foldl (addImage add) st order) = snd st \<union> (set order \<inter> dom add)"
  by (induction order arbitrary: st) (auto simp: addImage_def split: option.splits)

lemma toPromote_lookup:
  "fst (toPromote order config images req) t =
     (if Disabled config then None
      else if t \<in> set order \<and> AdditionalImages config t \<noteq> None then AdditionalImages config t
      else if t \<in> set (ExcludedImages config) then None
      else if \<exists>img \<in> set images. To img = t \<and> (t \<in> req \<or> \<not> Optional img) then Some t
      else None)"
  by (auto simp: toPromote_def Let_def foldl_addImage_lookup foldl_excludeImage_lookup
      foldl_includeImage_lookup)

text \<open>The names are the destinations of the tag map.\<close>

lemma toPromote_names:
  "snd (toPromote order config images req) = dom (fst (toPromote order config images req))"
  by (auto simp: toPromote_def Let_def foldl_addImage_names foldl_excludeImage_names
      foldl_includeImage_names foldl_addImage_lookup foldl_excludeImage_lookup
      foldl_includeImage_lookup dom_def split: if_splits)

text \<open>The order of the loop over the additional images does not show in the result.\<close>

lemma toPromote_order_independent:
  assumes "range_order (AdditionalImages config) order"
    and "range_order (AdditionalImages config) order'"
  shows "toPromote order config images required = toPromote order' config images required"
proof (rule prod_eqI)
  from assms have "set order = set order'"
    by (simp add: range_order_def)
  then show fst: "fst (toPromote order config images required) =
      fst (toPromote order' config images required)"
    by (intro ext) (simp only: toPromote_lookup)
  then show "snd (toPromote order config images required) =
      snd (toPromote order' config images required)"
    by (simp only: toPromote_names)
qed

lemma scenario_toPromote:
  "toPromote [''c''] scenario_config scenario_images {''a''} = ([''c'' \<mapsto> ''b''], {''c''})"
  by (simp add: toPromote_def scenario_config_def scenario_images_def includeImage_def
      excludeImage_def addImage_def Let_def)

text \<open>
  C1. A tag listed in \<open>ExcludedImages\<close> that is not a destination of
  \<open>AdditionalImages\<close>, so that an entry for it could only come from the image list,
  has no entry in the tag map that \<open>toPromote\<close> returns and is not among the names,
  whatever the images, the required images and the order of the last loop are: also
  when the tag is required or not optional.
\<close>

theorem toPromote_exclusion_wins:
  assumes "tag \<in> set (ExcludedImages config)" and "AdditionalImages config tag = None"
  shows "fst (toPromote order config images required) tag = None \<and>
         tag \<notin> snd (toPromote order config images required)"
  using assms by (simp add: toPromote_names toPromote_lookup domIff)

text \<open>In the scenario of the spec \<open>a\<close> is required, not optional and excluded; only
  \<open>c\<close>, with source \<open>b\<close>, is promoted.\<close>

theorem toPromote_exclusion_wins_witness:
  "''a'' \<in> set (ExcludedImages scenario_config) \<and> AdditionalImages scenario_config ''a'' = None \<and>
   fst (toPromote [''c''] scenario_config scenario_images {''a''}) ''a'' = None \<and>
   ''a'' \<notin> snd (toPromote [''c''] scenario_config scenario_images {''a''}) \<and>
   toPromote [''c''] scenario_config scenario_images {''a''} = ([''c'' \<mapsto> ''b''], {''c''})"
proof -
  have e: "''a'' \<in> set (ExcludedImages scenario_config)"
    and n: "AdditionalImages scenario_config ''a'' = None"
    by (simp_all add: scenario_config_def)
  from e n toPromote_exclusion_wins [OF e n, of "[''c'']" scenario_images "{''a''}"]
    scenario_toPromote
  show ?thesis by simp
qed

text \<open>
  C2, amended. When promotion is not disabled, every entry (destination, source) of
  \<open>AdditionalImages\<close> is an entry of the tag map that \<open>toPromote\<close> returns, and the
  destination is among the names: whatever the image list and the exclusion list left
  under that destination. (When promotion is disabled \<open>toPromote\<close> returns before
  its loops, with an empty map.)
\<close>

theorem toPromote_additional_applied_last:
  assumes "\<not> Disabled config" and "range_order (AdditionalImages config) order"
    and "AdditionalImages config dst = Some src"
  shows "fst (toPromote order config images required) dst = Some src \<and>
         dst \<in> snd (toPromote order config images required)"
proof -
  from assms(2,3) have "dst \<in> set order"
    by (auto simp: range_order_def)
  with assms(1,3) show ?thesis
    by (simp add: toPromote_names toPromote_lookup domIff)
qed

text \<open>Here \<open>c\<close> is an image of the list, is excluded, and is an additional image
  with source \<open>b\<close>.\<close>

theorem toPromote_additional_applied_last_witness:
  "\<not> Disabled override_config \<and> range_order (AdditionalImages override_config) [''c''] \<and>
   AdditionalImages override_config ''c'' = Some ''b'' \<and>
   ''c'' \<in> set (ExcludedImages override_config) \<and>
   fst (toPromote [''c''] override_config override_images {}) ''c'' = Some ''b'' \<and>
   ''c'' \<in> snd (toPromote [''c''] override_config override_images {})"
proof -
  have d: "\<not> Disabled override_config"
    and r: "range_order (AdditionalImages override_config) [''c'']"
    and a: "AdditionalImages override_config ''c'' = Some ''b''"
    by (simp_all add: override_config_def scenario_config_def range_order_def)
  have "''c'' \<in> set (ExcludedImages override_config)"
    by (simp add: override_config_def)
  with d r a toPromote_additional_applied_last [OF d r a, of override_images "{}"]
  show ?thesis by simp
qed

text \<open>The claim as it stands, for every configuration, fails where promotion is
  disabled: the scenario's configuration with \<open>Disabled\<close> set has the entry
  \<open>c \<mapsto> b\<close> in \<open>AdditionalImages\<close> and an empty result.\<close>

theorem toPromote_additional_counterexample:
  "\<not> (\<forall>order config images required dst src.
         range_order (AdditionalImages config) order \<and> AdditionalImages config dst = Some src
         \<longrightarrow> fst (toPromote order config images required) dst = Some src)"
proof
  assume "\<forall>order config images required dst src.
         range_order (AdditionalImages config) order \<and> AdditionalImages config dst = Some src
         \<longrightarrow> fst (toPromote order config images required) dst = Some src"
  then have "range_order (AdditionalImages (scenario_config\<lparr>Disabled := True\<rparr>)) [''c''] \<and>
      AdditionalImages (scenario_config\<lparr>Disabled := True\<rparr>) ''c'' = Some ''b''
      \<longrightarrow> fst (toPromote [''c''] (scenario_config\<lparr>Disabled := True\<rparr>) scenario_images {''a''}) ''c''
            = Some ''b''"
    by blast
  then show False
    by (simp add: range_order_def scenario_config_def toPromote_def)
qed

subsection \<open>The promoted tags\<close>

text \<open>An entry of the map built by the loop of \<open>PromotedTagsWithRequiredImages\<close>
  was there before the loop or is the destination of one of the tags the loop met.\<close>

lemma foldl_promoteTag_entry:
  "foldl (promoteTag pc tags) acc order src = Some r \<Longrightarrow>
     acc src = Some r \<or> (\<exists>dst \<in> set order. tags dst = Some src \<and> r = destination pc dst)"
proof (induction order arbitrary: acc)
  case Nil
  then show ?case by simp
next
  case (Cons k ks)
  from Cons.prems have "foldl (promoteTag pc tags) (promoteTag pc tags acc k) ks src = Some r"
    by simp
  from Cons.IH [OF this] show ?case
    by (auto simp: promoteTag_def split: option.splits if_splits)
qed

lemma foldl_promoteTag_dom:
  "dom (foldl (promoteTag pc tags) acc order) =
     dom acc \<union> {src. \<exists>dst \<in> set order. tags dst = Some src}"
  by (induction order arbitrary: acc) (auto simp: promoteTag_def split: option.splits if_splits)

lemma PromotedTags_enabled:
  assumes "PromotionConfiguration c = Some pc" and "\<not> Disabled pc"
  shows "PromotedTagsWithRequiredImages a additionalOrder tagsOrder (Some c) required =
    (let tags = fst (toPromote additionalOrder pc (Images c) required);
         promotedTags = foldl (promoteTag pc tags) Map.empty tagsOrder
     in (if BinaryBuildCommands c \<noteq> [] \<and> \<not> DisableBuildCache pc
         then promotedTags(PipelineImageStreamTagReferenceBinaries a
                \<mapsto> BuildCacheFor a (Metadata c))
         else promotedTags,
         snd (toPromote additionalOrder pc (Images c) required)))"
  using assms
  by (simp add: PromotedTagsWithRequiredImages_def Let_def split_beta)

lemma scenario_promoted:
  "PromotedTagsWithRequiredImages scenario_api [''c''] [''c''] (Some scenario_release) {''a''} =
     ([''b'' \<mapsto> \<lparr>ref_Namespace = ''ocp'', ref_Name = ''c'', ref_Tag = ''latest''\<rparr>,
       ''bin'' \<mapsto> \<lparr>ref_Namespace = ''build-cache'', ref_Name = ''org-repo'', ref_Tag = ''main''\<rparr>],
      {''c''})"
  by (simp add: PromotedTagsWithRequiredImages_def toPromote_def scenario_release_def
      scenario_config_def scenario_images_def scenario_api_def includeImage_def excludeImage_def
      addImage_def promoteTag_def destination_def Let_def)

text \<open>The text that \<open>targetName\<close> logs is the name of the destination of a tag
  called \<open>${component}\<close>: the two functions choose between the two forms alike.\<close>

lemma targetName_destination:
  "targetName config = ISTagName (destination config ''${component}'')"
  by (simp add: targetName_def ISTagName_def destination_def)

text \<open>
  C4. For a configuration whose promotion is not disabled, every entry of the
  promoted tags other than the build cache entry comes from an entry \<open>dst \<mapsto> src\<close>
  of the tag map of \<open>toPromote\<close>, and its destination has one form for the whole
  configuration: namespace, \<open>Name\<close> and the tag \<open>dst\<close> when \<open>Name\<close> is not
  empty, and otherwise namespace, the name \<open>dst\<close> and the tag \<open>Tag\<close>.
\<close>

theorem promoted_destination_mode:
  assumes "PromotionConfiguration c = Some pc" and "\<not> Disabled pc"
    and "fst (PromotedTagsWithRequiredImages a additionalOrder tagsOrder (Some c) required) src
           = Some r"
    and "src \<noteq> PipelineImageStreamTagReferenceBinaries a \<or> BinaryBuildCommands c = []
           \<or> DisableBuildCache pc"
  shows "\<exists>dst. fst (toPromote additionalOrder pc (Images c) required) dst = Some src \<and>
           r = (if Name pc \<noteq> []
                then \<lparr>ref_Namespace = Namespace pc, ref_Name = Name pc, ref_Tag = dst\<rparr>
                else \<lparr>ref_Namespace = Namespace pc, ref_Name = dst, ref_Tag = Tag pc\<rparr>)"
proof -
  let ?tags = "fst (toPromote additionalOrder pc (Images c) required)"
  from assms have "foldl (promoteTag pc ?tags) Map.empty tagsOrder src = Some r"
    by (auto simp: PromotedTags_enabled Let_def split: if_splits)
  from foldl_promoteTag_entry [OF this]
  obtain dst where "?tags dst = Some src" and "r = destination pc dst"
    by auto
  then show ?thesis
    by (auto simp: destination_def)
qed

theorem promoted_destination_mode_witness:
  "PromotionConfiguration scenario_release = Some scenario_config \<and> \<not> Disabled scenario_config \<and>
   fst (PromotedTagsWithRequiredImages scenario_api [''c''] [''c''] (Some scenario_release) {''a''}) ''b''
     = Some \<lparr>ref_Namespace = ''ocp'', ref_Name = ''c'', ref_Tag = ''latest''\<rparr> \<and>
   ''b'' \<noteq> PipelineImageStreamTagReferenceBinaries scenario_api \<and>
   (\<exists>dst. fst (toPromote [''c''] scenario_config (Images scenario_release) {''a''}) dst = Some ''b'' \<and>
      \<lparr>ref_Namespace = ''ocp'', ref_Name = ''c'', ref_Tag = ''latest''\<rparr> =
        (if Name scenario_config \<noteq> []
         then \<lparr>ref_Namespace = Namespace scenario_config, ref_Name = Name scenario_config,
               ref_Tag = dst\<rparr>
         else \<lparr>ref_Namespace = Namespace scenario_config, ref_Name = dst,
               ref_Tag = Tag scenario_config\<rparr>))"
proof -
  have p: "PromotionConfiguration scenario_release = Some scenario_config"
    by (simp add: scenario_release_def)
  have d: "\<not> Disabled scenario_config"
    by (simp add: scenario_config_def)
  have e: "fst (PromotedTagsWithRequiredImages scenario_api [''c''] [''c''] (Some scenario_release)
      {''a''}) ''b'' = Some \<lparr>ref_Namespace = ''ocp'', ref_Name = ''c'', ref_Tag = ''latest''\<rparr>"
    by (simp add: scenario_promoted)
  have b: "''b'' \<noteq> PipelineImageStreamTagReferenceBinaries scenario_api \<or>
      BinaryBuildCommands scenario_release = [] \<or> DisableBuildCache scenario_config"
    by (simp add: scenario_api_def)
  from promoted_destination_mode [OF p d e b] p d e show ?thesis
    by (simp add: scenario_api_def)
qed

text \<open>
  C9. For a configuration whose promotion is not disabled: when
  \<open>BinaryBuildCommands\<close> is not empty and the build cache is not disabled, the
  promoted tags map the pipeline tag of the binaries to \<open>BuildCacheFor\<close> of the
  metadata. When \<open>BinaryBuildCommands\<close> is empty or the build cache is disabled,
  the promoted tags are those the loop over the tag map built and nothing more, so
  that the binaries tag has no entry unless a promoted tag has it for its source. The
  names are those of \<open>toPromote\<close> in both cases.
\<close>

theorem build_cache_entry:
  assumes "PromotionConfiguration c = Some pc" and "\<not> Disabled pc"
  shows "(BinaryBuildCommands c \<noteq> [] \<and> \<not> DisableBuildCache pc \<longrightarrow>
            fst (PromotedTagsWithRequiredImages a additionalOrder tagsOrder (Some c) required)
              (PipelineImageStreamTagReferenceBinaries a) = Some (BuildCacheFor a (Metadata c))) \<and>
         (BinaryBuildCommands c = [] \<or> DisableBuildCache pc \<longrightarrow>
            fst (PromotedTagsWithRequiredImages a additionalOrder tagsOrder (Some c) required) =
              foldl (promoteTag pc (fst (toPromote additionalOrder pc (Images c) required)))
                Map.empty tagsOrder \<and>
            ((\<forall>dst. fst (toPromote additionalOrder pc (Images c) required) dst
                      \<noteq> Some (PipelineImageStreamTagReferenceBinaries a)) \<longrightarrow>
             fst (PromotedTagsWithRequiredImages a additionalOrder tagsOrder (Some c) required)
               (PipelineImageStreamTagReferenceBinaries a) = None)) \<and>
         snd (PromotedTagsWithRequiredImages a additionalOrder tagsOrder (Some c) required) =
           snd (toPromote additionalOrder pc (Images c) required)"
proof -
  let ?tags = "fst (toPromote additionalOrder pc (Images c) required)"
  let ?bin = "PipelineImageStreamTagReferenceBinaries a"
  have "foldl (promoteTag pc ?tags) Map.empty tagsOrder ?bin = None"
    if "\<forall>dst. ?tags dst \<noteq> Some ?bin"
  proof (rule ccontr)
    assume "foldl (promoteTag pc ?tags) Map.empty tagsOrder ?bin \<noteq> None"
    then obtain r where "foldl (promoteTag pc ?tags) Map.empty tagsOrder ?bin = Some r"
      by auto
    from foldl_promoteTag_entry [OF this] that show False
      by auto
  qed
  then show ?thesis
    using assms by (auto simp: PromotedTags_enabled Let_def)
qed

theorem build_cache_entry_witness:
  "PromotionConfiguration scenario_release = Some scenario_config \<and> \<not> Disabled scenario_config \<and>
   BinaryBuildCommands scenario_release \<noteq> [] \<and> \<not> DisableBuildCache scenario_config \<and>
   fst (PromotedTagsWithRequiredImages scenario_api [''c''] [''c''] (Some scenario_release) {''a''})
     ''bin'' = Some \<lparr>ref_Namespace = ''build-cache'', ref_Name = ''org-repo'', ref_Tag = ''main''\<rparr> \<and>
   fst (PromotedTagsWithRequiredImages scenario_api [''c''] [''c'']
     (Some (scenario_release\<lparr>BinaryBuildCommands := []\<rparr>)) {''a''}) ''bin'' = None"
proof -
  let ?off = "scenario_release\<lparr>BinaryBuildCommands := []\<rparr>"
  have p: "PromotionConfiguration scenario_release = Some scenario_config"
    and p': "PromotionConfiguration ?off = Some scenario_config"
    by (simp_all add: scenario_release_def)
  have d: "\<not> Disabled scenario_config"
    by (simp add: scenario_config_def)
  have on: "BinaryBuildCommands scenario_release \<noteq> [] \<and> \<not> DisableBuildCache scenario_config"
    by (simp add: scenario_release_def scenario_config_def)
  have off: "BinaryBuildCommands ?off = [] \<or> DisableBuildCache scenario_config"
    by simp
  have none: "\<forall>dst. fst (toPromote [''c''] scenario_config (Images ?off) {''a''}) dst
      \<noteq> Some (PipelineImageStreamTagReferenceBinaries scenario_api)"
    using scenario_toPromote by (simp add: scenario_release_def scenario_api_def)
  have "fst (PromotedTagsWithRequiredImages scenario_api [''c''] [''c''] (Some scenario_release)
      {''a''}) (PipelineImageStreamTagReferenceBinaries scenario_api)
      = Some (BuildCacheFor scenario_api (Metadata scenario_release))"
    using build_cache_entry [OF p d, of scenario_api "[''c'']" "[''c'']" "{''a''}"] on by blast
  moreover have "fst (PromotedTagsWithRequiredImages scenario_api [''c''] [''c''] (Some ?off)
      {''a''}) (PipelineImageStreamTagReferenceBinaries scenario_api) = None"
    using build_cache_entry [OF p' d, of scenario_api "[''c'']" "[''c'']" "{''a''}"] off none
    by blast
  ultimately show ?thesis
    using p d on by (simp add: scenario_api_def)
qed

subsection \<open>The order of the loop over the tag map\<close>

text \<open>When no two destinations of the tag map have the same source, each source
  gets the destination of its one tag, in whatever order the loop runs.\<close>

lemma foldl_promoteTag_distinct_sources:
  assumes "range_order tags order" and "inj_on tags (dom tags)"
  shows "foldl (promoteTag pc tags) Map.empty order src =
           (if src \<in> ran tags then Some (destination pc (THE dst. tags dst = Some src))
            else None)"
proof (cases "src \<in> ran tags")
  case True
  then obtain dst where dst: "tags dst = Some src"
    by (auto simp: ran_def)
  with assms(1) have "src \<in> dom (foldl (promoteTag pc tags) Map.empty order)"
    by (auto simp: foldl_promoteTag_dom range_order_def)
  then obtain r where r: "foldl (promoteTag pc tags) Map.empty order src = Some r"
    by auto
  from foldl_promoteTag_entry [OF r] obtain dst' where "tags dst' = Some src"
    and r': "r = destination pc dst'"
    by auto
  have uniq: "d = dst" if "tags d = Some src" for d
    using that dst assms(2) by (auto simp: inj_on_def dom_def)
  then have "(THE d. tags d = Some src) = dst"
    using dst by blast
  moreover have "dst' = dst"
    using uniq \<open>tags dst' = Some src\<close> by simp
  ultimately show ?thesis
    using True r r' by simp
next
  case False
  then have "\<forall>dst. tags dst \<noteq> Some src"
    by (auto simp: ran_def)
  then have "src \<notin> dom (foldl (promoteTag pc tags) Map.empty order)"
    by (simp add: foldl_promoteTag_dom)
  with False show ?thesis
    by (simp add: domIff)
qed

lemma PromotedTags_order_independent:
  assumes "range_order (AdditionalImages pc) additionalOrder"
    and "range_order (AdditionalImages pc) additionalOrder'"
    and "range_order (fst (toPromote additionalOrder pc (Images c) required)) tagsOrder"
    and "range_order (fst (toPromote additionalOrder pc (Images c) required)) tagsOrder'"
    and "inj_on (fst (toPromote additionalOrder pc (Images c) required))
           (dom (fst (toPromote additionalOrder pc (Images c) required)))"
    and "PromotionConfiguration c = Some pc" and "\<not> Disabled pc"
  shows "PromotedTagsWithRequiredImages a additionalOrder tagsOrder (Some c) required =
         PromotedTagsWithRequiredImages a additionalOrder' tagsOrder' (Some c) required"
proof -
  let ?tags = "fst (toPromote additionalOrder pc (Images c) required)"
  have same: "toPromote additionalOrder' pc (Images c) required =
      toPromote additionalOrder pc (Images c) required"
    using assms(2,1) by (rule toPromote_order_independent)
  have "foldl (promoteTag pc ?tags) Map.empty tagsOrder =
      foldl (promoteTag pc ?tags) Map.empty tagsOrder'"
    by (intro ext)
      (simp only: foldl_promoteTag_distinct_sources [OF assms(3,5)]
        foldl_promoteTag_distinct_sources [OF assms(4,5)])
  then show ?thesis
    by (simp only: PromotedTags_enabled [OF assms(6,7)] same Let_def)
qed

text \<open>
  C8. \<open>PromotedTagsWithRequiredImages\<close> keys its result by source while it ranges
  over the tag map of \<open>toPromote\<close>, which is keyed by destination. In
  \<open>collision_release\<close> the image \<open>b\<close> is promoted as \<open>b\<close> and, by
  \<open>AdditionalImages\<close>, as \<open>c\<close>: the tag map is \<open>b \<mapsto> b, c \<mapsto> b\<close>, both orders
  of its two keys are orders the Go runtime may take, and the promoted tags hold
  \<open>ocp/c:latest\<close> for \<open>b\<close> in one order and \<open>ocp/b:latest\<close> in the other. Two
  calls with the same configuration and required images can so return different tag
  maps.
\<close>

theorem PromotedTags_depend_on_range_order:
  "toPromote [''c''] collision_config (Images collision_release) {}
     = ([''b'' \<mapsto> ''b'', ''c'' \<mapsto> ''b''], {''b'', ''c''}) \<and>
   range_order [''b'' \<mapsto> ''b'', ''c'' \<mapsto> ''b''] [''b'', ''c''] \<and>
   range_order [''b'' \<mapsto> ''b'', ''c'' \<mapsto> ''b''] [''c'', ''b''] \<and>
   fst (PromotedTagsWithRequiredImages scenario_api [''c''] [''b'', ''c''] (Some collision_release) {})
     = [''b'' \<mapsto> \<lparr>ref_Namespace = ''ocp'', ref_Name = ''c'', ref_Tag = ''latest''\<rparr>] \<and>
   fst (PromotedTagsWithRequiredImages scenario_api [''c''] [''c'', ''b''] (Some collision_release) {})
     = [''b'' \<mapsto> \<lparr>ref_Namespace = ''ocp'', ref_Name = ''b'', ref_Tag = ''latest''\<rparr>]"
proof -
  have t: "toPromote [''c''] collision_config (Images collision_release) {}
     = ([''b'' \<mapsto> ''b'', ''c'' \<mapsto> ''b''], {''b'', ''c''})"
    by (auto simp: toPromote_def collision_config_def collision_release_def includeImage_def
        addImage_def Let_def)
  have r: "range_order [''b'' \<mapsto> ''b'', ''c'' \<mapsto> ''b''] [''b'', ''c'']"
    "range_order [''b'' \<mapsto> ''b'', ''c'' \<mapsto> ''b''] [''c'', ''b'']"
    by (auto simp: range_order_def)
  have p: "PromotionConfiguration collision_release = Some collision_config"
    and d: "\<not> Disabled collision_config"
    and b: "BinaryBuildCommands collision_release = []"
    and n: "Name collision_config = []" "Namespace collision_config = ''ocp''"
       "Tag collision_config = ''latest''"
    by (simp_all add: collision_release_def collision_config_def)
  have "fst (PromotedTagsWithRequiredImages scenario_api [''c''] [''b'', ''c'']
      (Some collision_release) {})
     = [''b'' \<mapsto> \<lparr>ref_Namespace = ''ocp'', ref_Name = ''c'', ref_Tag = ''latest''\<rparr>]"
    by (simp add: PromotedTags_enabled [OF p d] t b n promoteTag_def destination_def)
  moreover have "fst (PromotedTagsWithRequiredImages scenario_api [''c''] [''c'', ''b'']
      (Some collision_release) {})
     = [''b'' \<mapsto> \<lparr>ref_Namespace = ''ocp'', ref_Name = ''b'', ref_Tag = ''latest''\<rparr>]"
    by (simp add: PromotedTags_enabled [OF p d] t b n promoteTag_def destination_def)
  ultimately show ?thesis
    using t r by (simp only: simp_thms)
qed

subsection \<open>The mirror mapping\<close>

lemma findInTags_unrecorded:
  assumes "src \<notin> set (map tag_Tag ts) \<or>
           (\<exists>t. List.find (\<lambda>t. tag_Tag t = src) ts = Some t \<and> Items t = [])"
  shows "findInTags ts src = []"
  using assms by (induction ts) (auto split: if_splits)

lemma foldl_mirrorTag_skip:
  assumes "findDockerImageReference p src = []" and "\<And>k. k \<noteq> src \<Longrightarrow> tags' k = tags k"
  shows "foldl (mirrorTag tags p registry) acc order =
         foldl (mirrorTag tags' p registry) acc (removeAll src order)"
proof (induction order arbitrary: acc)
  case Nil
  then show ?case by simp
next
  case (Cons k ks)
  show ?case
  proof (cases "k = src")
    case True
    with assms(1) have "mirrorTag tags p registry acc k = acc"
      by (simp add: mirrorTag_def split: option.splits)
    with True Cons.IH show ?thesis by simp
  next
    case False
    with assms(2) have "mirrorTag tags p registry acc k = mirrorTag tags' p registry acc k"
      by (simp add: mirrorTag_def)
    with False Cons.IH show ?thesis by simp
  qed
qed

lemma scenario_public:
  "getPublicImageReference ''image-registry.svc:5000/ci-op-1/pipeline@sha256:0b''
     ''registry.build01.example.com/ci-op-1/pipeline'' =
   ''registry.build01.example.com/ci-op-1/pipeline@sha256:0b''"
  by code_simp

lemma scenario_mirror:
  "getImageMirrorTarget [''b''] (scenario_tags(''bin'' := None, ''src'' := None))
     (Some scenario_pipeline) ''registry.ci.openshift.org'' =
   [''registry.build01.example.com/ci-op-1/pipeline@sha256:0b''
      \<mapsto> ''registry.ci.openshift.org/ocp/c:latest'']"
  by (simp add: getImageMirrorTarget_def mirrorTag_def findDockerImageReference_def
      scenario_tags_def scenario_pipeline_def scenario_public ISTagName_def)

text \<open>
  C5. Let \<open>src\<close> be a promoted source tag with no pull reference in the status of
  the pipeline image stream: no status tag has its name, or the status tag of its name
  (the first one, should the list repeat a name) has no items. Then
  \<open>findDockerImageReference\<close> answers the empty string and the mirror mapping is
  the one computed without \<open>src\<close> among the promoted tags. \<open>getImageMirrorTarget\<close>
  returns a mapping and nothing else; it has no error to return.
\<close>

theorem unrecorded_tag_is_skipped:
  assumes "src \<notin> set (map tag_Tag (Tags (Status p))) \<or>
           (\<exists>t. List.find (\<lambda>t. tag_Tag t = src) (Tags (Status p)) = Some t \<and> Items t = [])"
  shows "findDockerImageReference p src = [] \<and>
         getImageMirrorTarget order tags (Some p) registry =
           getImageMirrorTarget (removeAll src order) (tags(src := None)) (Some p) registry"
proof -
  from assms have none: "findDockerImageReference p src = []"
    unfolding findDockerImageReference_def by (rule findInTags_unrecorded)
  have "foldl (mirrorTag tags p registry) Map.empty order =
        foldl (mirrorTag (tags(src := None)) p registry) Map.empty (removeAll src order)"
    by (rule foldl_mirrorTag_skip [OF none]) simp
  with none show ?thesis
    unfolding getImageMirrorTarget_def by simp
qed

text \<open>Of the promoted tags \<open>b\<close>, \<open>bin\<close> and \<open>src\<close>, the stream of the example has
  no tag \<open>bin\<close> and no items for \<open>src\<close>: the mapping holds the image of \<open>b\<close>
  alone.\<close>

theorem unrecorded_tag_is_skipped_witness:
  "''bin'' \<notin> set (map tag_Tag (Tags (Status scenario_pipeline))) \<and>
   List.find (\<lambda>t. tag_Tag t = ''src'') (Tags (Status scenario_pipeline))
     = Some \<lparr>tag_Tag = ''src'', Items = []\<rparr> \<and>
   getImageMirrorTarget [''b'', ''bin'', ''src''] scenario_tags (Some scenario_pipeline)
     ''registry.ci.openshift.org'' =
   [''registry.build01.example.com/ci-op-1/pipeline@sha256:0b''
      \<mapsto> ''registry.ci.openshift.org/ocp/c:latest'']"
proof -
  have nobin: "''bin'' \<notin> set (map tag_Tag (Tags (Status scenario_pipeline)))"
    and found: "List.find (\<lambda>t. tag_Tag t = ''src'') (Tags (Status scenario_pipeline))
      = Some \<lparr>tag_Tag = ''src'', Items = []\<rparr>"
    by (simp_all add: scenario_pipeline_def)
  have "getImageMirrorTarget [''b'', ''bin'', ''src''] scenario_tags (Some scenario_pipeline)
     ''registry.ci.openshift.org'' =
     getImageMirrorTarget [''b'', ''src''] (scenario_tags(''bin'' := None)) (Some scenario_pipeline)
     ''registry.ci.openshift.org''"
    using unrecorded_tag_is_skipped [of "''bin''" scenario_pipeline "[''b'', ''bin'', ''src'']"
      scenario_tags "''registry.ci.openshift.org''"] nobin by simp
  also have "\<dots> = getImageMirrorTarget [''b''] (scenario_tags(''bin'' := None, ''src'' := None))
     (Some scenario_pipeline) ''registry.ci.openshift.org''"
    using unrecorded_tag_is_skipped [of "''src''" scenario_pipeline "[''b'', ''src'']"
      "scenario_tags(''bin'' := None)" "''registry.ci.openshift.org''"] found by simp
  finally show ?thesis
    using nobin found by (simp only: scenario_mirror simp_thms)
qed

subsection \<open>The arguments of the promotion pod\<close>

lemma sort_range_order:
  assumes "range_order m ks"
  shows "sort ks = sorted_list_of_set (dom m)"
proof -
  from assms have "distinct ks" and "set ks = dom m"
    by (simp_all add: range_order_def)
  then have "sorted_list_of_set (dom m) = sort (remdups ks)"
    by (simp only: sorted_list_of_set_sort_remdups [symmetric])
  with \<open>distinct ks\<close> show ?thesis
    by (simp only: distinct_remdups_id)
qed

lemma mirrorArguments_sorted:
  assumes "range_order m ks"
  shows "mirrorArguments ks m =
           map (\<lambda>src. src @ ''='' @ at m src) (sorted_list_of_set (dom m))"
  unfolding mirrorArguments_def by (simp only: sort_range_order [OF assms])

lemma Args_getPromotionPod:
  "map Args (Containers (getPromotionPod a ks m ns)) =
     [[''oc image mirror --registry-config='' @ RegistryConfigPath a
       @ '' --continue-on-error=true --max-per-registry=20 ''
       @ Join (mirrorArguments ks m) '' '']]"
  unfolding getPromotionPod_def Let_def by simp

lemma scenario_sort:
  "sort [''quay.io/ci/b@sha256:0b'', ''quay.io/ci/a@sha256:0a''] =
     [''quay.io/ci/a@sha256:0a'', ''quay.io/ci/b@sha256:0b'']"
  by code_simp

text \<open>
  C7. Whatever order the first loop of \<open>getPromotionPod\<close> meets the keys of the
  mirror mapping in, the pod is the same, and the one argument of its container is the
  \<open>oc image mirror\<close> command followed by the pairs \<open>source=destination\<close>, one for
  each source of the mapping, joined by blanks in the increasing order of the sources
  (the order of Go strings, byte by byte).
\<close>

theorem getPromotionPod_sorted:
  assumes "range_order m ks" and "range_order m ks'"
  shows "getPromotionPod a ks m ns = getPromotionPod a ks' m ns \<and>
         (\<exists>srcs. sorted srcs \<and> distinct srcs \<and> set srcs = dom m \<and>
            map Args (Containers (getPromotionPod a ks m ns)) =
              [[''oc image mirror --registry-config='' @ RegistryConfigPath a
                @ '' --continue-on-error=true --max-per-registry=20 ''
                @ Join (map (\<lambda>src. src @ ''='' @ at m src) srcs) '' '']])"
proof -
  from assms(1) have fin: "finite (dom m)"
    unfolding range_order_def by (metis List.finite_set)
  have "mirrorArguments ks m = mirrorArguments ks' m"
    by (simp only: mirrorArguments_sorted [OF assms(1)] mirrorArguments_sorted [OF assms(2)])
  then have same: "getPromotionPod a ks m ns = getPromotionPod a ks' m ns"
    unfolding getPromotionPod_def by (simp only:)
  have args: "map Args (Containers (getPromotionPod a ks m ns)) =
              [[''oc image mirror --registry-config='' @ RegistryConfigPath a
                @ '' --continue-on-error=true --max-per-registry=20 ''
                @ Join (map (\<lambda>src. src @ ''='' @ at m src) (sorted_list_of_set (dom m))) '' '']]"
    by (simp only: Args_getPromotionPod mirrorArguments_sorted [OF assms(1)])
  have srt: "sorted (sorted_list_of_set (dom m))"
    and dst: "distinct (sorted_list_of_set (dom m))"
    and st: "set (sorted_list_of_set (dom m)) = dom m"
    using fin by simp_all
  have "\<exists>srcs. sorted srcs \<and> distinct srcs \<and> set srcs = dom m \<and>
            map Args (Containers (getPromotionPod a ks m ns)) =
              [[''oc image mirror --registry-config='' @ RegistryConfigPath a
                @ '' --continue-on-error=true --max-per-registry=20 ''
                @ Join (map (\<lambda>src. src @ ''='' @ at m src) srcs) '' '']]"
    by (intro exI [where x = "sorted_list_of_set (dom m)"] conjI) (rule srt dst st args)+
  with same show ?thesis by (rule conjI)
qed

theorem getPromotionPod_sorted_witness:
  "range_order scenario_mapping [''quay.io/ci/b@sha256:0b'', ''quay.io/ci/a@sha256:0a''] \<and>
   range_order scenario_mapping [''quay.io/ci/a@sha256:0a'', ''quay.io/ci/b@sha256:0b''] \<and>
   getPromotionPod scenario_api [''quay.io/ci/b@sha256:0b'', ''quay.io/ci/a@sha256:0a'']
     scenario_mapping ''ci-op-1'' =
   getPromotionPod scenario_api [''quay.io/ci/a@sha256:0a'', ''quay.io/ci/b@sha256:0b'']
     scenario_mapping ''ci-op-1'' \<and>
   map Args (Containers (getPromotionPod scenario_api
     [''quay.io/ci/b@sha256:0b'', ''quay.io/ci/a@sha256:0a''] scenario_mapping ''ci-op-1'')) =
   [[''oc image mirror --registry-config=/etc/push-secret/.dockerconfigjson --continue-on-error=true --max-per-registry=20 quay.io/ci/a@sha256:0a=registry.ci.openshift.org/ocp/a:latest quay.io/ci/b@sha256:0b=registry.ci.openshift.org/ocp/b:latest'']]"
proof -
  have r1: "range_order scenario_mapping [''quay.io/ci/b@sha256:0b'', ''quay.io/ci/a@sha256:0a'']"
    and r2: "range_order scenario_mapping [''quay.io/ci/a@sha256:0a'', ''quay.io/ci/b@sha256:0b'']"
    by (auto simp: range_order_def scenario_mapping_def)
  have "map Args (Containers (getPromotionPod scenario_api
     [''quay.io/ci/b@sha256:0b'', ''quay.io/ci/a@sha256:0a''] scenario_mapping ''ci-op-1'')) =
   [[''oc image mirror --registry-config=/etc/push-secret/.dockerconfigjson --continue-on-error=true --max-per-registry=20 quay.io/ci/a@sha256:0a=registry.ci.openshift.org/ocp/a:latest quay.io/ci/b@sha256:0b=registry.ci.openshift.org/ocp/b:latest'']]"
    by (simp add: getPromotionPod_def mirrorArguments_def scenario_sort scenario_mapping_def
        scenario_api_def at_def)
  with r1 r2 getPromotionPod_sorted [OF r1 r2, of scenario_api "''ci-op-1''"]
  show ?thesis by (simp only: simp_thms)
qed

subsection \<open>Running the step\<close>

text \<open>A run of the scenario: the step fetches the pipeline image stream and runs
  the pod that mirrors \<open>b\<close> to \<open>ocp/c:latest\<close>.\<close>

lemma scenario_run:
  "run scenario_api scenario_orders scenario_client (scenario_step (Some scenario_release)) =
     (None,
      [CallGet ''ci-op-1'' ''pipeline'',
       CallRunPod (getPromotionPod scenario_api
         [''registry.build01.example.com/ci-op-1/pipeline@sha256:0b'']
         [''registry.build01.example.com/ci-op-1/pipeline@sha256:0b''
            \<mapsto> ''registry.ci.openshift.org/ocp/c:latest'']
         ''ci-op-1'')])"
proof -
  have m: "getImageMirrorTarget [''b'', ''bin'']
     [''b'' \<mapsto> \<lparr>ref_Namespace = ''ocp'', ref_Name = ''c'', ref_Tag = ''latest''\<rparr>,
       ''bin'' \<mapsto> \<lparr>ref_Namespace = ''build-cache'', ref_Name = ''org-repo'', ref_Tag = ''main''\<rparr>]
     (Some scenario_pipeline) ''registry.ci.openshift.org'' =
   [''registry.build01.example.com/ci-op-1/pipeline@sha256:0b''
      \<mapsto> ''registry.ci.openshift.org/ocp/c:latest'']"
    by (simp add: getImageMirrorTarget_def mirrorTag_def findDockerImageReference_def
      scenario_pipeline_def scenario_public ISTagName_def)
  have r: "registryDomain scenario_api scenario_config = ''registry.ci.openshift.org''"
    by (simp add: registryDomain_def scenario_api_def scenario_config_def)
  have c: "PromotionConfiguration scenario_release = Some scenario_config"
    by (simp add: scenario_release_def)
  have i: "PipelineImageStream scenario_api = ''pipeline''"
    by (simp add: scenario_api_def)
  show ?thesis
    by (simp add: run_def scenario_step_def scenario_orders_def scenario_promoted c i m r
        scenario_client_def)
qed

text \<open>
  C3. When promotion is disabled (the step has no configuration, the configuration
  has no promotion configuration, or \<open>Disabled\<close> is set),
  \<open>PromotedTagsWithRequiredImages\<close> returns no tag and no name (nil and nil in Go,
  an empty map and an empty set), and \<open>run\<close> returns no error and has made no call
  on the client: it has neither fetched the image stream nor run a pod.
\<close>

theorem disabled_is_noop:
  assumes "case step_configuration s of
             None \<Rightarrow> True
           | Some c \<Rightarrow> (case PromotionConfiguration c of None \<Rightarrow> True | Some pc \<Rightarrow> Disabled pc)"
  shows "PromotedTagsWithRequiredImages a additionalOrder tagsOrder (step_configuration s)
           (step_requiredImages s) = (Map.empty, {}) \<and>
         run a ro client s = (None, [])"
proof -
  have "PromotedTagsWithRequiredImages a additionalOrder' tagsOrder' (step_configuration s)
          (step_requiredImages s) = (Map.empty, {})" for additionalOrder' tagsOrder'
    using assms by (simp add: PromotedTagsWithRequiredImages_def split: option.splits)
  then show ?thesis
    by (simp add: run_def)
qed

text \<open>The three ways of being disabled, against a client that would answer.\<close>

theorem disabled_is_noop_witness:
  "run scenario_api scenario_orders scenario_client (scenario_step None) = (None, []) \<and>
   run scenario_api scenario_orders scenario_client
     (scenario_step (Some (scenario_release\<lparr>PromotionConfiguration := None\<rparr>))) = (None, []) \<and>
   run scenario_api scenario_orders scenario_client
     (scenario_step (Some (scenario_release
        \<lparr>PromotionConfiguration := Some (scenario_config\<lparr>Disabled := True\<rparr>)\<rparr>))) = (None, []) \<and>
   PromotedTagsWithRequiredImages scenario_api [''c''] [''c'']
     (Some (scenario_release
        \<lparr>PromotionConfiguration := Some (scenario_config\<lparr>Disabled := True\<rparr>)\<rparr>)) {''a''}
     = (Map.empty, {})"
  using
    disabled_is_noop [of "scenario_step None" scenario_api "[''c'']" "[''c'']" scenario_orders
      scenario_client]
    disabled_is_noop [of "scenario_step (Some (scenario_release\<lparr>PromotionConfiguration := None\<rparr>))"
      scenario_api "[''c'']" "[''c'']" scenario_orders scenario_client]
    disabled_is_noop [of "scenario_step (Some (scenario_release
        \<lparr>PromotionConfiguration := Some (scenario_config\<lparr>Disabled := True\<rparr>)\<rparr>))"
      scenario_api "[''c'']" "[''c'']" scenario_orders scenario_client]
  by (simp add: scenario_step_def scenario_release_def scenario_config_def)

text \<open>
  C10. When the set of promoted names is empty, \<open>run\<close> returns no error and has
  made no call on the client, whatever the promoted tags hold. In particular a
  configuration that builds binaries and promotes no image has the build cache entry
  in its promoted tags and no name: the step neither fetches the image stream nor runs
  a pod, and the build cache tag is not mirrored.
\<close>

theorem no_names_no_calls:
  assumes "snd (PromotedTagsWithRequiredImages a (order_additional ro) (order_tags ro)
             (step_configuration s) (step_requiredImages s)) = {}"
  shows "run a ro client s = (None, [])"
  using assms by (simp add: run_def split_beta)

theorem no_names_no_calls_witness:
  "snd (PromotedTagsWithRequiredImages scenario_api [] [] (Some binaries_release) {''a''}) = {} \<and>
   fst (PromotedTagsWithRequiredImages scenario_api [] [] (Some binaries_release) {''a''}) =
     [''bin'' \<mapsto> \<lparr>ref_Namespace = ''build-cache'', ref_Name = ''org-repo'', ref_Tag = ''main''\<rparr>] \<and>
   run scenario_api (scenario_orders\<lparr>order_additional := [], order_tags := []\<rparr>) scenario_client
     (scenario_step (Some binaries_release)) = (None, [])"
proof -
  have e: "PromotedTagsWithRequiredImages scenario_api [] [] (Some binaries_release) {''a''} =
    ([''bin'' \<mapsto> \<lparr>ref_Namespace = ''build-cache'', ref_Name = ''org-repo'', ref_Tag = ''main''\<rparr>],
     {})"
    by (simp add: PromotedTagsWithRequiredImages_def toPromote_def binaries_release_def
        collision_config_def scenario_api_def)
  then have "snd (PromotedTagsWithRequiredImages scenario_api
      (order_additional (scenario_orders\<lparr>order_additional := [], order_tags := []\<rparr>))
      (order_tags (scenario_orders\<lparr>order_additional := [], order_tags := []\<rparr>))
      (step_configuration (scenario_step (Some binaries_release)))
      (step_requiredImages (scenario_step (Some binaries_release)))) = {}"
    by (simp add: scenario_step_def)
  from no_names_no_calls [OF this, of scenario_client] e show ?thesis
    by simp
qed

end
